theory Spec2Isabelle
  imports Main
begin

section \<open>JavaScript values\<close>

text \<open>
  The values the server code inspects at run time: module default exports, request
  bodies, the arrays built by \<open>Array.prototype.map\<close>. Functions are opaque and known
  by an identity only.
\<close>

datatype jsval =
    JUndefined
  | JNull
  | JBoolean bool
  | JNumber int
  | JString string
  | JArray "jsval list"
  | JObject "(string \<times> jsval) list"
  | JFunction nat

text \<open>ToBoolean: every object, array and function is truthy, the empty array included.\<close>

fun truthy :: "jsval \<Rightarrow> bool" where
  "truthy JUndefined = False"
| "truthy JNull = False"
| "truthy (JBoolean b) = b"
| "truthy (JNumber n) = (n \<noteq> 0)"
| "truthy (JString s) = (s \<noteq> [])"
| "truthy (JArray xs) = True"
| "truthy (JObject kvs) = True"
| "truthy (JFunction f) = True"

text \<open>\<open>a && b\<close> yields \<open>a\<close> when \<open>a\<close> is falsy and \<open>b\<close> otherwise.\<close>

definition js_and :: "jsval \<Rightarrow> jsval \<Rightarrow> jsval" where
  "js_and a b = (if truthy a then b else a)"

text \<open>
  An exception (or a rejected promise awaited by the caller), and how a call ends: it
  returns, it throws, or it never completes because a promise it awaits never settles
  or a function it calls never returns.
\<close>

datatype error =
    TypeError string
  | FsError string
  | ImportError string string
  | StartupRejected

datatype 'a outcome = Returned 'a | Threw error | Pending

subsection \<open>Strings\<close>

text \<open>
  \<open>toLocaleUpperCase\<close> on the ASCII letters; other characters are kept, which is what
  the method does on file names made of ASCII characters.
\<close>

definition upper_char :: "char \<Rightarrow> char" where
  "upper_char c =
     (let n = (of_char c :: nat) in if 97 \<le> n \<and> n \<le> 122 then char_of (n - 32) else c)"

definition toLocaleUpperCase :: "string \<Rightarrow> string" where
  "toLocaleUpperCase s = map upper_char s"

definition startsWith :: "string \<Rightarrow> string \<Rightarrow> bool" where
  "startsWith s t = (take (length t) s = t)"

definition endsWith :: "string \<Rightarrow> string \<Rightarrow> bool" where
  "endsWith s t = (length t \<le> length s \<and> drop (length s - length t) s = t)"

fun includesText :: "string \<Rightarrow> string \<Rightarrow> bool" where
  "includesText [] t = (t = [])"
| "includesText (c # cs) t = (startsWith (c # cs) t \<or> includesText cs t)"

text \<open>\<open>replaceAll(/\/{2,}/g, '/')\<close>: every run of two or more slashes becomes one slash.\<close>

fun collapseSlashes :: "string \<Rightarrow> string" where
  "collapseSlashes (a # b # cs) =
     (if a = CHR ''/'' \<and> b = CHR ''/'' then collapseSlashes (b # cs)
      else a # collapseSlashes (b # cs))"
| "collapseSlashes cs = cs"

section \<open>The data of HttpServer and WebSocketServer\<close>

text \<open>
  Objects created at run time (an express \<open>Router()\<close>, a node \<open>http.Server\<close>) are known
  by the number of their allocation. A \<open>Route\<close> is a facade over one router.
\<close>

datatype route = Route nat

text \<open>A middleware or event callback: a plain function or a Controller-shaped object.\<close>

datatype handler = FunctionHandler nat | ObjectHandler nat

datatype callback_fn = DefaultCallback | Callback nat

datatype number = Num int | NaN

datatype port_arg = PortNumber number | PortString string

datatype address = AddrUndefined | AddrNull | AddrPipe string | AddrInfo string string int

datatype level = Info | Warn

type_synonym server_options = nat

record router_entry =
  path :: "string option"
  entryBaseUrl :: "string option"
  router :: nat
  loaded :: bool
  hidden :: bool

record listener_options =
  port :: number
  callback :: callback_fn

record event_options =
  name :: string
  enabled :: bool
  payload :: "jsval option"

record event_descriptor =
  options :: event_options
  callbacks :: "handler list"

text \<open>A listener bound on the socket.io server with \<open>server.on\<close>.\<close>

datatype listener = OnEvent event_descriptor | OnConnection callback_fn

text \<open>
  The WebSocketServer object: the http server its socket.io server was created on,
  its options, the stored event descriptors and the listeners bound so far.
\<close>

record web_socket_server =
  attached :: nat
  wsOptions :: "server_options option"
  events :: "event_descriptor list"
  bound :: "(string \<times> listener) list"

text \<open>
  What the code does to the express application, to node servers and to the logger.
  \<open>ServerClose\<close> carries the level and message that the callback given to
  \<open>server.close\<close> logs once the server has closed; \<open>SetupRoute\<close> and \<open>SetupEvents\<close> are
  the calls of a module's default export with a route or with the event registrar.
\<close>

datatype effect =
    UseSharedStateInitializer
  | ExpressUse "string option" "handler list"
  | ExpressSet string jsval
  | ExpressMount string nat
  | CreateServer nat
  | ServerListen nat port_arg callback_fn
  | ServerClose nat level string
  | Log level string
  | Invoke callback_fn
  | RouteUse route "handler list"
  | SetupRoute nat route
  | SetupEvents nat

text \<open>
  The fields of the HttpServer, the static \<open>WebSocketServer.instance\<close>, the allocation
  counters and the effects so far. \<open>websocketServer\<close> can only ever refer to the one
  WebSocketServer instance, so the field holds whether it was assigned.
\<close>

datatype ws_ref = TheInstance

record http_server =
  server :: "nat option"
  startWebSocketServer :: bool
  websocketServer :: "ws_ref option"
  websocketServerOptions :: "server_options option"
  listenerOptions :: "listener_options option"
  baseUrl :: string
  addressInfo :: address
  routers :: "router_entry list"
  startupCallbacks :: "callback_fn list"
  isStarted :: bool
  wsInstance :: "web_socket_server option"
  nextRouter :: nat
  nextServer :: nat
  trace :: "effect list"

text \<open>
  What the file system, the module loader and the network answer: \<open>readdirSync\<close> (None
  when it throws), the default export of the module at a directory and file name (None
  when the import is rejected), ToNumber on a string, what \<open>server.address()\<close> returns
  after \<open>listen\<close>, and how each startup callback ends when called.
\<close>

datatype settlement = Fulfils | Rejects | NeverSettles | NeverReturns

record env =
  readdirSync :: "string \<Rightarrow> string list option"
  importDefault :: "string \<Rightarrow> string \<Rightarrow> jsval option"
  toNumber :: "string \<Rightarrow> number"
  serverAddress :: "nat \<Rightarrow> port_arg \<Rightarrow> address"
  startup :: "callback_fn \<Rightarrow> settlement"

definition emit :: "effect \<Rightarrow> http_server \<Rightarrow> http_server" where
  "emit e s = s\<lparr>trace := trace s @ [e]\<rparr>"

text \<open>\<open>new HttpServer()\<close>: the constructor installs the shared-state initializer.\<close>

definition initial :: http_server where
  "initial =
     \<lparr>server = None, startWebSocketServer = False, websocketServer = None,
      websocketServerOptions = None, listenerOptions = None, baseUrl = [],
      addressInfo = AddrUndefined, routers = [], startupCallbacks = [],
      isStarted = False, wsInstance = None, nextRouter = 0, nextServer = 0,
      trace = [UseSharedStateInitializer]\<rparr>"

section \<open>HttpServer\<close>

definition setWebSocketServerOptions ::
  "server_options option \<Rightarrow> http_server \<Rightarrow> http_server" where
  "setWebSocketServerOptions opts s =
     s\<lparr>websocketServerOptions := opts, startWebSocketServer := True\<rparr>"

definition unaryPlus :: "env \<Rightarrow> port_arg \<Rightarrow> number" where
  "unaryPlus en p = (case p of PortNumber n \<Rightarrow> n | PortString str \<Rightarrow> toNumber en str)"

definition mountUrl :: "http_server \<Rightarrow> router_entry \<Rightarrow> string" where
  "mountUrl s r =
     collapseSlashes
       ((case entryBaseUrl r of Some b \<Rightarrow> b | None \<Rightarrow> baseUrl s) @ ''/'' @
        (case path r of Some p \<Rightarrow> p | None \<Rightarrow> []))"

text \<open>
  \<open>loadRoutes\<close>: every entry not yet loaded is mounted, in list order, and its flag set.
\<close>

definition loadRoutes :: "http_server \<Rightarrow> http_server" where
  "loadRoutes s =
     s\<lparr>routers := map (\<lambda>r. if loaded r then r else r\<lparr>loaded := True\<rparr>) (routers s),
       trace := trace s @
         map (\<lambda>r. ExpressMount (mountUrl s r) (router r))
           (filter (\<lambda>r. \<not> loaded r) (routers s))\<rparr>"

text \<open>\<open>server.createServer(this.express)\<close>: a new node server, not yet listening.\<close>

definition createServer :: "http_server \<Rightarrow> nat \<times> http_server" where
  "createServer s =
     (let n = nextServer s in (n, emit (CreateServer n) (s\<lparr>nextServer := Suc n\<rparr>)))"

definition getServer :: "http_server \<Rightarrow> nat \<times> http_server" where
  "getServer s = createServer (loadRoutes s)"

definition listen ::
  "env \<Rightarrow> port_arg \<Rightarrow> callback_fn \<Rightarrow> http_server \<Rightarrow> nat option outcome \<times> http_server" where
  "listen en p cb s =
     (if isStarted s then (Returned None, s)
      else
        let s1 = s\<lparr>isStarted := True\<rparr>;
            s2 = loadRoutes s1;
            s3 = s2\<lparr>listenerOptions := Some \<lparr>port = unaryPlus en p, callback = cb\<rparr>\<rparr>;
            (n, s4) = getServer s3;
            s5 = s4\<lparr>server := Some n\<rparr>;
            s6 = emit (ServerListen n p cb) s5;
            s7 = s6\<lparr>addressInfo := serverAddress en n p\<rparr>
        in (Returned (Some n), s7))"

definition setBaseUrl :: "string \<Rightarrow> http_server \<Rightarrow> http_server" where
  "setBaseUrl url s =
     (if isStarted s
      then emit (Log Warn ''Only set the default base url if the server is not started'') s
      else s\<lparr>baseUrl := url\<rparr>)"

definition onStart :: "callback_fn list \<Rightarrow> http_server \<Rightarrow> http_server" where
  "onStart callbackList s = s\<lparr>startupCallbacks := callbackList\<rparr>"

text \<open>
  \<open>createRoute\<close>: a new router, appended to the list as a not yet loaded entry.
\<close>

definition createRoute ::
  "string option \<Rightarrow> string option \<Rightarrow> bool \<Rightarrow> http_server \<Rightarrow> route \<times> http_server" where
  "createRoute pth burl hid s =
     (let r = nextRouter s
      in (Route r,
          s\<lparr>nextRouter := Suc r,
            routers := routers s @
              [\<lparr>path = pth, entryBaseUrl = burl, router = r, loaded = False, hidden = hid\<rparr>]\<rparr>))"

definition getRoute :: "string option \<Rightarrow> string option \<Rightarrow> http_server \<Rightarrow> route option" where
  "getRoute pth burl s =
     (case find (\<lambda>r. path r = pth \<and> entryBaseUrl r = burl \<and> \<not> hidden r) (routers s) of
        None \<Rightarrow> None
      | Some r \<Rightarrow> Some (Route (router r)))"

definition route :: "string option \<Rightarrow> string option \<Rightarrow> http_server \<Rightarrow> route \<times> http_server" where
  "route pth burl s =
     (case getRoute pth burl s of
        Some r \<Rightarrow> (r, s)
      | None \<Rightarrow> createRoute pth burl False s)"

subsection \<open>Directory discovery\<close>

definition extensionsToSearch :: "string list" where
  "extensionsToSearch = [''.TS'', ''.JS'']"

definition ignoreIfIncludes :: "string list" where
  "ignoreIfIncludes = [''.MAP.'', ''.SPEC.'', ''.TEST.'']"

text \<open>
  The two values the loop computes for a file name are the arrays \<open>map\<close> returns, one
  boolean per marker and per extension; the \<open>if\<close> tests the arrays themselves.
\<close>

definition hasAValidExtension :: "string \<Rightarrow> jsval" where
  "hasAValidExtension fileName =
     JArray (map (\<lambda>text. JBoolean (includesText (toLocaleUpperCase fileName) text))
               ignoreIfIncludes)"

definition haveAValidName :: "string \<Rightarrow> jsval" where
  "haveAValidName fileName =
     JArray (map (\<lambda>ext. JBoolean (endsWith (toLocaleUpperCase fileName) ext))
               extensionsToSearch)"

definition fileIsImported :: "string \<Rightarrow> bool" where
  "fileIsImported fileName =
     truthy (js_and (haveAValidName fileName) (hasAValidExtension fileName))"

text \<open>
  The loop of \<open>routesDirectory\<close> over the directory listing. What a module's setup
  function does with the route is the module's; its call is recorded.
\<close>

fun routesLoop ::
  "env \<Rightarrow> string \<Rightarrow> route \<Rightarrow> string list \<Rightarrow> http_server \<Rightarrow> unit outcome \<times> http_server" where
  "routesLoop en dir rt [] s = (Returned (), s)"
| "routesLoop en dir rt (fileName # files) s =
     (if fileIsImported fileName then
        (case importDefault en dir fileName of
           None \<Rightarrow> (Threw (ImportError dir fileName), s)
         | Some setup \<Rightarrow>
             (case setup of
                JFunction k \<Rightarrow> routesLoop en dir rt files (emit (SetupRoute k rt) s)
              | _ \<Rightarrow> routesLoop en dir rt files s))
      else routesLoop en dir rt files s)"

datatype directory_arg =
    ArgUndefined
  | ArgBaseUrl string
  | ArgRoute route
  | ArgMiddleware handler

definition routesDirectory ::
  "env \<Rightarrow> string \<Rightarrow> directory_arg \<Rightarrow> handler list \<Rightarrow> http_server
     \<Rightarrow> unit outcome \<times> http_server" where
  "routesDirectory en dir arg1 args s =
     (let burl = (case arg1 of ArgBaseUrl b \<Rightarrow> b | _ \<Rightarrow> baseUrl s);
          middlewares = (case arg1 of ArgMiddleware m \<Rightarrow> m # args | _ \<Rightarrow> args)
      in case readdirSync en dir of
           None \<Rightarrow> (Threw (FsError dir), s)
         | Some files \<Rightarrow>
             (let (rt, s1) =
                    (case arg1 of
                       ArgRoute r \<Rightarrow> (r, s)
                     | _ \<Rightarrow> createRoute (Some []) (Some burl) True s);
                  s2 = (if middlewares \<noteq> [] then emit (RouteUse rt middlewares) s1 else s1)
              in case routesLoop en dir rt files s2 of
                   (Threw e, s3) \<Rightarrow> (Threw e, s3)
                 | (Pending, s3) \<Rightarrow> (Pending, s3)
                 | (Returned u, s3) \<Rightarrow> (Returned (), loadRoutes s3)))"

datatype use_arg = UsePath string | UseMiddleware handler

definition use :: "use_arg \<Rightarrow> handler list \<Rightarrow> http_server \<Rightarrow> http_server" where
  "use v middlewares s =
     (case v of
        UsePath p \<Rightarrow> emit (ExpressUse (Some p) middlewares) s
      | UseMiddleware m \<Rightarrow> emit (ExpressUse None (m # middlewares)) s)"

definition set_of :: "string \<Rightarrow> jsval \<Rightarrow> http_server \<Rightarrow> http_server" where
  "set_of setting val s = emit (ExpressSet setting val) s"

section \<open>WebSocketServer\<close>

definition register ::
  "event_options \<Rightarrow> handler list \<Rightarrow> web_socket_server \<Rightarrow> web_socket_server" where
  "register opts cbs w =
     (if \<not> enabled opts then w
      else w\<lparr>events := events w @ [\<lparr>options = opts, callbacks = cbs\<rparr>]\<rparr>)"

text \<open>\<open>this.server.on(name, listener)\<close> on the socket.io server.\<close>

definition on :: "string \<Rightarrow> listener \<Rightarrow> web_socket_server \<Rightarrow> web_socket_server" where
  "on nm l w = w\<lparr>bound := bound w @ [(nm, l)]\<rparr>"

definition loadEvents :: "web_socket_server \<Rightarrow> web_socket_server" where
  "loadEvents w = foldl (\<lambda>acc ev. on (name (options ev)) (OnEvent ev) acc) w (events w)"

text \<open>
  \<open>loadEventsAsync\<close> maps an async function over the descriptors; each body runs to its
  end when called, so the listeners are bound in list order as in \<open>loadEvents\<close>.
\<close>

definition loadEventsAsync :: "web_socket_server \<Rightarrow> web_socket_server" where
  "loadEventsAsync w = foldl (\<lambda>acc ev. on (name (options ev)) (OnEvent ev) acc) w (events w)"

definition connect :: "callback_fn \<Rightarrow> web_socket_server \<Rightarrow> web_socket_server" where
  "connect disconnectCallback w = on ''connection'' (OnConnection disconnectCallback) w"

text \<open>
  What \<open>getInstance\<close> is given as its \<open>httpServer\<close>: the HttpServer object, or another
  value (HttpServer passes its node server, \<open>this.server\<close>).
\<close>

datatype ws_host = HttpServerObject | NodeServer nat | HostUndefined

text \<open>
  The constructor calls \<open>httpServer.getServer()\<close>, a method of HttpServer only.
\<close>

definition newWebSocketServer ::
  "ws_host \<Rightarrow> server_options option \<Rightarrow> http_server \<Rightarrow> unit outcome \<times> http_server" where
  "newWebSocketServer h opts s =
     (case h of
        HostUndefined \<Rightarrow>
          (Threw (TypeError ''Cannot read properties of undefined (reading getServer)''), s)
      | NodeServer k \<Rightarrow> (Threw (TypeError ''httpServer.getServer is not a function''), s)
      | HttpServerObject \<Rightarrow>
          (let (n, s1) = getServer s
           in (Returned (),
               s1\<lparr>wsInstance :=
                    Some \<lparr>attached = n, wsOptions = opts, events = [], bound = []\<rparr>\<rparr>)))"

definition getInstance ::
  "ws_host \<Rightarrow> server_options option \<Rightarrow> http_server \<Rightarrow> unit outcome \<times> http_server" where
  "getInstance h opts s =
     (case wsInstance s of
        None \<Rightarrow> newWebSocketServer h opts s
      | Some w \<Rightarrow> (Returned (), s))"

fun eventsLoop ::
  "env \<Rightarrow> string \<Rightarrow> string list \<Rightarrow> http_server \<Rightarrow> unit outcome \<times> http_server" where
  "eventsLoop en dir [] s = (Returned (), s)"
| "eventsLoop en dir (fileName # files) s =
     (if fileIsImported fileName then
        (case importDefault en dir fileName of
           None \<Rightarrow> (Threw (ImportError dir fileName), s)
         | Some setup \<Rightarrow>
             (case setup of
                JFunction k \<Rightarrow> eventsLoop en dir files (emit (SetupEvents k) s)
              | _ \<Rightarrow> eventsLoop en dir files s))
      else eventsLoop en dir files s)"

definition eventsDirectory ::
  "env \<Rightarrow> string \<Rightarrow> http_server \<Rightarrow> unit outcome \<times> http_server" where
  "eventsDirectory en dir s =
     (case readdirSync en dir of
        None \<Rightarrow> (Threw (FsError dir), s)
      | Some files \<Rightarrow> eventsLoop en dir files s)"

text \<open>A method of the WebSocketServer instance, applied to the instance in the state.\<close>

definition onInstance ::
  "(web_socket_server \<Rightarrow> web_socket_server) \<Rightarrow> http_server \<Rightarrow> http_server" where
  "onInstance f s = s\<lparr>wsInstance := map_option f (wsInstance s)\<rparr>"

section \<open>Starting and stopping\<close>

definition serverHost :: "http_server \<Rightarrow> ws_host" where
  "serverHost s = (case server s of None \<Rightarrow> HostUndefined | Some n \<Rightarrow> NodeServer n)"

definition initializeWebSocketServer ::
  "env \<Rightarrow> http_server \<Rightarrow> unit outcome \<times> http_server" where
  "initializeWebSocketServer en s =
     (if \<not> startWebSocketServer s then (Returned (), s)
      else
        (case getInstance (serverHost s) (websocketServerOptions s) s of
           (Threw e, s1) \<Rightarrow> (Threw e, s1)
         | (Pending, s1) \<Rightarrow> (Pending, s1)
         | (Returned u, s1) \<Rightarrow>
             eventsDirectory en ''src/main/events'' (s1\<lparr>websocketServer := Some TheInstance\<rparr>)))"

text \<open>
  \<open>startupCallbacks.map(async (callback) => callback?.())\<close>: the callbacks are called in
  list order. A callback that throws, rejects, fulfils or returns a promise that never
  settles lets the next one be called; one that never returns stops everything. The
  result tells whether every call returned.
\<close>

fun invokeAll :: "env \<Rightarrow> callback_fn list \<Rightarrow> http_server \<Rightarrow> bool \<times> http_server" where
  "invokeAll en [] s = (True, s)"
| "invokeAll en (c # cs) s =
     (if startup en c = NeverReturns then (False, emit (Invoke c) s)
      else invokeAll en cs (emit (Invoke c) s))"

text \<open>
  \<open>listenAsync\<close>: \<open>await Promise.all(promises)\<close> throws when a startup callback threw or
  rejected; otherwise it never completes when one of the promises never settles, and
  goes on when all of them are fulfilled.
\<close>

definition listenAsync ::
  "env \<Rightarrow> port_arg \<Rightarrow> callback_fn \<Rightarrow> http_server \<Rightarrow> nat option outcome \<times> http_server" where
  "listenAsync en p cb s =
     (if isStarted s then (Returned None, s)
      else
        let s1 = s\<lparr>isStarted := True\<rparr>;
            (returned, s2) = invokeAll en (startupCallbacks s1) s1
        in if \<not> returned then (Pending, s2)
           else if list_ex (\<lambda>c. startup en c = Rejects) (startupCallbacks s2)
           then (Threw StartupRejected, s2)
           else if list_ex (\<lambda>c. startup en c = NeverSettles) (startupCallbacks s2)
           then (Pending, s2)
           else
             let s3 = loadRoutes s2;
                 s4 = s3\<lparr>listenerOptions := Some \<lparr>port = unaryPlus en p, callback = cb\<rparr>\<rparr>;
                 (n, s5) = createServer s4;
                 s6 = s5\<lparr>server := Some n\<rparr>
             in case initializeWebSocketServer en s6 of
                  (Threw e, s7) \<Rightarrow> (Threw e, s7)
                | (Pending, s7) \<Rightarrow> (Pending, s7)
                | (Returned u, s7) \<Rightarrow>
                    (case websocketServer s7 of
                       None \<Rightarrow>
                         (Threw (TypeError
                            ''Cannot read properties of undefined (reading connect)''), s7)
                     | Some w \<Rightarrow>
                         (let s8 = onInstance (connect DefaultCallback) s7;
                              s9 = emit (ServerListen n p cb) s8;
                              s10 = s9\<lparr>addressInfo := serverAddress en n p\<rparr>
                          in (Returned (Some n), s10))))"

definition refresh :: "env \<Rightarrow> http_server \<Rightarrow> unit outcome \<times> http_server" where
  "refresh en s =
     (if \<not> isStarted s then (Returned (), s)
      else
        (case server s of
           None \<Rightarrow> (Threw (TypeError ''Cannot read properties of undefined (reading close)''), s)
         | Some n \<Rightarrow>
             (let s1 = emit (ServerClose n Info ''Refreshing server'') s
              in case listenerOptions s1 of
                   None \<Rightarrow>
                     (Threw (TypeError ''Cannot read properties of undefined (reading port)''),
                      s1)
                 | Some lo \<Rightarrow>
                     (case listen en (PortNumber (port lo)) (callback lo) s1 of
                        (Threw e, s2) \<Rightarrow> (Threw e, s2)
                      | (Pending, s2) \<Rightarrow> (Pending, s2)
                      | (Returned r, s2) \<Rightarrow> (Returned (), s2)))))"

text \<open>
  \<open>close\<close>: the class WebSocketServer declares no method \<open>close\<close>, so the call
  \<open>this.websocketServer.close()\<close> throws on an instance as it does on an unset field.
\<close>

definition close :: "http_server \<Rightarrow> unit outcome \<times> http_server" where
  "close s =
     (if \<not> isStarted s then (Returned (), s)
      else
        (case server s of
           None \<Rightarrow> (Threw (TypeError ''Cannot read properties of undefined (reading close)''), s)
         | Some n \<Rightarrow>
             (let s1 = emit (ServerClose n Info ''Shutting down server'') s
              in if \<not> startWebSocketServer s1 then (Returned (), s1)
                 else
                   (case websocketServer s1 of
                      None \<Rightarrow>
                        (Threw (TypeError
                           ''Cannot read properties of undefined (reading close)''), s1)
                    | Some w \<Rightarrow>
                        (Threw (TypeError ''this.websocketServer.close is not a function''),
                         s1)))))"

section \<open>Programs over the server\<close>

text \<open>
  The calls the application can make on the HttpServer singleton and, once it exists, on
  the WebSocketServer instance. A call that throws leaves the state as it was at the
  throw. \<open>run\<close> performs a list of calls in order.
\<close>

datatype operation =
    OpSetWebSocketServerOptions "server_options option"
  | OpListen port_arg callback_fn
  | OpListenAsync port_arg callback_fn
  | OpGetServer
  | OpOnStart "callback_fn list"
  | OpRefresh
  | OpClose
  | OpUse use_arg "handler list"
  | OpSet string jsval
  | OpSetBaseUrl string
  | OpRoutesDirectory string directory_arg "handler list"
  | OpRoute "string option" "string option"
  | OpWsGetInstance "server_options option"
  | OpWsRegister event_options "handler list"
  | OpWsLoadEvents
  | OpWsLoadEventsAsync
  | OpWsEventsDirectory string
  | OpWsConnect callback_fn

fun exec :: "env \<Rightarrow> operation \<Rightarrow> http_server \<Rightarrow> http_server" where
  "exec en (OpSetWebSocketServerOptions opts) s = setWebSocketServerOptions opts s"
| "exec en (OpListen p cb) s = snd (listen en p cb s)"
| "exec en (OpListenAsync p cb) s = snd (listenAsync en p cb s)"
| "exec en OpGetServer s = snd (getServer s)"
| "exec en (OpOnStart cbs) s = onStart cbs s"
| "exec en OpRefresh s = snd (refresh en s)"
| "exec en OpClose s = snd (close s)"
| "exec en (OpUse v ms) s = use v ms s"
| "exec en (OpSet k v) s = set_of k v s"
| "exec en (OpSetBaseUrl url) s = setBaseUrl url s"
| "exec en (OpRoutesDirectory dir arg1 args) s = snd (routesDirectory en dir arg1 args s)"
| "exec en (OpRoute pth burl) s = snd (route pth burl s)"
| "exec en (OpWsGetInstance opts) s = snd (getInstance HttpServerObject opts s)"
| "exec en (OpWsRegister opts cbs) s = onInstance (register opts cbs) s"
| "exec en OpWsLoadEvents s = onInstance loadEvents s"
| "exec en OpWsLoadEventsAsync s = onInstance loadEventsAsync s"
| "exec en (OpWsEventsDirectory dir) s =
     (case wsInstance s of None \<Rightarrow> s | Some w \<Rightarrow> snd (eventsDirectory en dir s))"
| "exec en (OpWsConnect dc) s = onInstance (connect dc) s"

fun run :: "env \<Rightarrow> operation list \<Rightarrow> http_server \<Rightarrow> http_server" where
  "run en [] s = s"
| "run en (opn # ops) s = run en ops (exec en opn s)"

section \<open>The middleware adapter\<close>

record request =
  body :: jsval
  params :: jsval
  query :: jsval
  sharedState :: jsval

record http_response =
  statusCode :: int
  responseBody :: jsval
  headers :: "jsval option"

datatype response_call = ResSet jsval | ResStatus int | ResJson jsval

text \<open>
  \<open>middlewareAdapter\<close>, with the two key converters of the utility module as parameters
  and the middleware's \<open>handle\<close> as a function of the request and its shared state
  (throwing, never settling, returning nothing or returning a response); what \<open>handle\<close> does with
  \<open>next\<close> and with the state setter is the middleware's own. The result is the request
  as the adapter left it and the calls made on the response object.
\<close>

definition middlewareAdapter ::
  "(jsval \<Rightarrow> jsval) \<Rightarrow> (jsval \<Rightarrow> jsval)
     \<Rightarrow> (request \<Rightarrow> jsval \<Rightarrow> http_response option outcome)
     \<Rightarrow> request \<Rightarrow> request \<times> response_call list outcome" where
  "middlewareAdapter convertSnakeCaseKeysToCamelCase convertCamelCaseKeysToSnakeCase
     handle req =
     (let r1 = req\<lparr>body := convertSnakeCaseKeysToCamelCase (body req)\<rparr>;
          r2 = r1\<lparr>params := convertSnakeCaseKeysToCamelCase (params r1)\<rparr>;
          r3 = r2\<lparr>query := convertSnakeCaseKeysToCamelCase (query r2)\<rparr>
      in case handle r3 (sharedState r3) of
           Threw e \<Rightarrow> (r3, Threw e)
         | Pending \<Rightarrow> (r3, Pending)
         | Returned None \<Rightarrow> (r3, Returned [])
         | Returned (Some httpResponse) \<Rightarrow>
             (r3,
              Returned
                ((case headers httpResponse of
                    None \<Rightarrow> []
                  | Some h \<Rightarrow> if truthy h then [ResSet h] else []) @
                 [ResStatus (statusCode httpResponse),
                  ResJson (convertCamelCaseKeysToSnakeCase (responseBody httpResponse))])))"

text \<open>
  Modelled from the spec: the key converters of the utility module, which is not among
  the sources: "pure functions converting mapping keys between snake_case and camelCase
  recursively over nested mappings/sequences". They are used to run the adapter on a
  concrete request; the adapter itself takes its converters as parameters.
\<close>

definition lower_char :: "char \<Rightarrow> char" where
  "lower_char c =
     (let n = (of_char c :: nat) in if 65 \<le> n \<and> n \<le> 90 then char_of (n + 32) else c)"

definition is_upper :: "char \<Rightarrow> bool" where
  "is_upper c = (let n = (of_char c :: nat) in 65 \<le> n \<and> n \<le> 90)"

fun snakeToCamel :: "string \<Rightarrow> string" where
  "snakeToCamel (a # b # cs) =
     (if a = CHR ''_'' then upper_char b # snakeToCamel cs else a # snakeToCamel (b # cs))"
| "snakeToCamel cs = cs"

fun camelToSnake :: "string \<Rightarrow> string" where
  "camelToSnake [] = []"
| "camelToSnake (c # cs) =
     (if is_upper c then CHR ''_'' # lower_char c # camelToSnake cs else c # camelToSnake cs)"

fun convertKeys :: "(string \<Rightarrow> string) \<Rightarrow> jsval \<Rightarrow> jsval" where
  "convertKeys f (JArray xs) = JArray (map (convertKeys f) xs)"
| "convertKeys f (JObject kvs) = JObject (map (\<lambda>kv. (f (fst kv), convertKeys f (snd kv))) kvs)"
| "convertKeys f v = v"

definition convertSnakeCaseKeysToCamelCase :: "jsval \<Rightarrow> jsval" where
  "convertSnakeCaseKeysToCamelCase = convertKeys snakeToCamel"

definition convertCamelCaseKeysToSnakeCase :: "jsval \<Rightarrow> jsval" where
  "convertCamelCaseKeysToSnakeCase = convertKeys camelToSnake"

section \<open>Notions used to state the properties\<close>

text \<open>The router an effect mounts into the express application, if it is a mount.\<close>

fun mounted :: "effect \<Rightarrow> nat option" where
  "mounted (ExpressMount url k) = Some k"
| "mounted e = None"

definition mounts :: "nat \<Rightarrow> http_server \<Rightarrow> nat" where
  "mounts k s = length (filter (\<lambda>e. mounted e = Some k) (trace s))"

fun isListen :: "effect \<Rightarrow> bool" where
  "isListen (ServerListen n p cb) = True"
| "isListen e = False"

fun isSetup :: "effect \<Rightarrow> bool" where
  "isSetup (SetupRoute k rt) = True"
| "isSetup (SetupEvents k) = True"
| "isSetup e = False"

text \<open>An effect mounts no router beyond the first \<open>n\<close> allocated ones.\<close>

fun allocated :: "nat \<Rightarrow> effect \<Rightarrow> bool" where
  "allocated n (ExpressMount url k) = (k < n)"
| "allocated n e = True"

text \<open>What identifies a router entry: everything but its \<open>loaded\<close> flag.\<close>

definition identityOf ::
  "router_entry \<Rightarrow> string option \<times> string option \<times> nat \<times> bool" where
  "identityOf e = (path e, entryBaseUrl e, router e, hidden e)"

text \<open>
  \<open>grows xs ys\<close>: the router list \<open>ys\<close> keeps every entry of \<open>xs\<close> at its place, with the
  same identity, and an entry loaded in \<open>xs\<close> is loaded in \<open>ys\<close>.
\<close>

fun grows :: "router_entry list \<Rightarrow> router_entry list \<Rightarrow> bool" where
  "grows [] ys = True"
| "grows (x # xs) [] = False"
| "grows (x # xs) (y # ys) =
     (identityOf x = identityOf y \<and> (loaded y \<or> \<not> loaded x) \<and> grows xs ys)"

text \<open>
  The invariant of the router list: the routers are pairwise distinct and allocated, a
  router is mounted once if its entry is loaded and not at all otherwise, and only
  allocated routers are mounted.
\<close>

definition wellFormed :: "http_server \<Rightarrow> bool" where
  "wellFormed s \<longleftrightarrow>
     distinct (map router (routers s)) \<and>
     list_all (\<lambda>e. router e < nextRouter s) (routers s) \<and>
     list_all (\<lambda>e. mounts (router e) s = (if loaded e then 1 else 0)) (routers s) \<and>
     list_all (allocated (nextRouter s)) (trace s)"


text \<open>
  A property of the state is stable when the steps the operations are made of keep it:
  an effect that is not a mount, \<open>loadRoutes\<close>, \<open>createRoute\<close>, and the assignments to
  the other fields.
\<close>

definition stable :: "(http_server \<Rightarrow> bool) \<Rightarrow> bool" where
  "stable P \<longleftrightarrow>
     (\<forall>s e. P s \<and> mounted e = None \<longrightarrow> P (emit e s)) \<and>
     (\<forall>s. P s \<longrightarrow> P (loadRoutes s)) \<and>
     (\<forall>s pth burl hid. P s \<longrightarrow> P (snd (createRoute pth burl hid s))) \<and>
     (\<forall>s v. P s \<longrightarrow> P (s\<lparr>server := v\<rparr>)) \<and>
     (\<forall>s v. P s \<longrightarrow> P (s\<lparr>websocketServerOptions := v\<rparr>)) \<and>
     (\<forall>s v. P s \<longrightarrow> P (s\<lparr>listenerOptions := v\<rparr>)) \<and>
     (\<forall>s v. P s \<longrightarrow> P (s\<lparr>baseUrl := v\<rparr>)) \<and>
     (\<forall>s v. P s \<longrightarrow> P (s\<lparr>addressInfo := v\<rparr>)) \<and>
     (\<forall>s v. P s \<longrightarrow> P (s\<lparr>startupCallbacks := v\<rparr>)) \<and>
     (\<forall>s v. P s \<longrightarrow> P (s\<lparr>isStarted := v\<rparr>)) \<and>
     (\<forall>s v. P s \<longrightarrow> P (s\<lparr>wsInstance := v\<rparr>)) \<and>
     (\<forall>s v. P s \<longrightarrow> P (s\<lparr>nextServer := v\<rparr>)) \<and>
     (\<forall>s. P s \<longrightarrow> P (s\<lparr>startWebSocketServer := True\<rparr>)) \<and>
     (\<forall>s. P s \<and> startWebSocketServer s \<longrightarrow> P (s\<lparr>websocketServer := Some TheInstance\<rparr>))"

subsection \<open>A concrete environment\<close>

text \<open>
  A routes directory and an events directory, each with one handler file and one file
  whose name carries an excluded marker; every module default-exports a function.
\<close>

definition demoEnv :: env where
  "demoEnv =
     \<lparr>readdirSync =
        (\<lambda>d. if d = ''src/main/routes'' then Some [''health.ts'', ''foo.spec.ts'']
             else if d = ''src/main/events'' then Some [''chat.ts'', ''chat.test.ts'']
             else None),
      importDefault =
        (\<lambda>d f. if f = ''health.ts'' then Some (JFunction 0)
               else if f = ''foo.spec.ts'' then Some (JFunction 1)
               else if f = ''chat.ts'' then Some (JFunction 2)
               else if f = ''chat.test.ts'' then Some (JFunction 3)
               else None),
      toNumber = (\<lambda>str. NaN),
      serverAddress = (\<lambda>n p. AddrInfo ''::'' ''IPv6'' 3000),
      startup = (\<lambda>c. Fulfils)\<rparr>"



section \<open>Evaluation of the listeners bound by loadEvents\<close>

lemma loadEvents_bound_aux:
  "bound (foldl (\<lambda>acc ev. on (name (options ev)) (OnEvent ev) acc) w evs) =
     bound w @ map (\<lambda>ev. (name (options ev), OnEvent ev)) evs"
  by (induction evs arbitrary: w) (simp_all add: on_def)

lemma loadEvents_events_aux:
  "events (foldl (\<lambda>acc ev. on (name (options ev)) (OnEvent ev) acc) w evs) = events w"
  by (induction evs arbitrary: w) (simp_all add: on_def)

text \<open>
  C7. \<open>register\<close> with \<open>enabled = false\<close> returns the WebSocketServer unchanged, so
  \<open>loadEvents\<close> binds what it would have bound without the call; with \<open>enabled = true\<close>
  it stores exactly one descriptor, at the end of the list; and \<open>loadEvents\<close> binds one
  listener per stored descriptor, under the descriptor's name, in the order of the list,
  leaving the descriptors as they are.
\<close>

theorem register_stores_enabled_only:
  "(\<not> enabled opts \<longrightarrow>
      register opts cbs w = w \<and>
      bound (loadEvents (register opts cbs w)) = bound (loadEvents w)) \<and>
   (enabled opts \<longrightarrow>
      events (register opts cbs w) = events w @ [\<lparr>options = opts, callbacks = cbs\<rparr>]) \<and>
   bound (loadEvents w) =
     bound w @ map (\<lambda>ev. (name (options ev), OnEvent ev)) (events w) \<and>
   events (loadEvents w) = events w"
  by (simp add: register_def loadEvents_def loadEvents_bound_aux loadEvents_events_aux)

theorem register_stores_enabled_only_witness:
  "bound (loadEvents (register \<lparr>name = ''ping'', enabled = False, payload = None\<rparr>
       [FunctionHandler 0]
       \<lparr>attached = 0, wsOptions = None, events = [], bound = []\<rparr>)) = [] \<and>
   map fst (bound (loadEvents (register \<lparr>name = ''ping'', enabled = True, payload = None\<rparr>
       [FunctionHandler 0]
       \<lparr>attached = 0, wsOptions = None, events = [], bound = []\<rparr>))) = [''ping'']"
proof -
  let ?w = "\<lparr>attached = 0, wsOptions = None, events = [], bound = []\<rparr>"
  let ?off = "\<lparr>name = ''ping'', enabled = False, payload = None\<rparr>"
  let ?on = "\<lparr>name = ''ping'', enabled = True, payload = None\<rparr>"
  note off = register_stores_enabled_only [of ?off "[FunctionHandler 0]" ?w]
  note on = register_stores_enabled_only [of ?on "[FunctionHandler 0]" ?w]
  note after = register_stores_enabled_only
    [of ?on "[FunctionHandler 0]" "register ?on [FunctionHandler 0] ?w"]
  have "bound (loadEvents (register ?off [FunctionHandler 0] ?w)) = []"
    using off by simp
  moreover have "map fst (bound (loadEvents (register ?on [FunctionHandler 0] ?w))) = [''ping'']"
    using on after by (simp add: register_def)
  ultimately show ?thesis by simp
qed

section \<open>The base URL\<close>

text \<open>
  C8. \<open>setBaseUrl\<close> on a started server changes nothing but the log, to which it adds
  one warning, so the stored base URL is the one it was; on a server not yet started it
  stores the given URL and does nothing else. It returns in both cases.
\<close>

theorem setBaseUrl_ignored_after_start:
  "(isStarted s \<longrightarrow>
      setBaseUrl url s =
        s\<lparr>trace := trace s @
           [Log Warn ''Only set the default base url if the server is not started'']\<rparr> \<and>
      baseUrl (setBaseUrl url s) = baseUrl s) \<and>
   (\<not> isStarted s \<longrightarrow>
      setBaseUrl url s = s\<lparr>baseUrl := url\<rparr> \<and> baseUrl (setBaseUrl url s) = url)"
  by (simp add: setBaseUrl_def emit_def)

theorem setBaseUrl_ignored_after_start_witness:
  "baseUrl (setBaseUrl ''/api/v1'' initial) = ''/api/v1'' \<and>
   baseUrl (setBaseUrl ''/api/v1''
      (run demoEnv [OpSetBaseUrl ''/v0'', OpListen (PortNumber (Num 3000)) DefaultCallback]
         initial)) = ''/v0''"
proof -
  let ?started =
    "run demoEnv [OpSetBaseUrl ''/v0'', OpListen (PortNumber (Num 3000)) DefaultCallback]
       initial"
  have fresh: "\<not> isStarted initial"
    by (simp add: initial_def)
  have started: "isStarted ?started"
    by code_simp
  have url: "baseUrl ?started = ''/v0''"
    by code_simp
  show ?thesis
    using setBaseUrl_ignored_after_start [of initial "''/api/v1''"]
      setBaseUrl_ignored_after_start [of ?started "''/api/v1''"] fresh started url
    by simp
qed

section \<open>The middleware adapter\<close>

text \<open>
  C4. For every request and every middleware, the adapter replaces the request's body,
  params and query by their snake_case to camelCase conversions, the middleware's
  \<open>handle\<close> is applied to that converted request only, and when \<open>handle\<close> returns a
  response the adapter's last two calls on the response object are \<open>status\<close> with the
  returned status code and \<open>json\<close> with the camelCase to snake_case conversion of the
  returned body, preceded by nothing but a \<open>set\<close> of the headers.
\<close>

theorem middlewareAdapter_converts_keys:
  "fst (middlewareAdapter toCamel toSnake handle req) =
     req\<lparr>body := toCamel (body req), params := toCamel (params req),
         query := toCamel (query req)\<rparr> \<and>
   middlewareAdapter toCamel toSnake handle req =
     middlewareAdapter toCamel toSnake
       (\<lambda>r. handle (req\<lparr>body := toCamel (body req), params := toCamel (params req),
                         query := toCamel (query req)\<rparr>)) req \<and>
   (\<forall>resp.
      handle (req\<lparr>body := toCamel (body req), params := toCamel (params req),
                   query := toCamel (query req)\<rparr>) (sharedState req) = Returned (Some resp) \<longrightarrow>
      (\<exists>pre. snd (middlewareAdapter toCamel toSnake handle req) =
         Returned (pre @ [ResStatus (statusCode resp), ResJson (toSnake (responseBody resp))]) \<and>
         list_all (\<lambda>c. \<exists>h. c = ResSet h) pre))"
  by (auto simp: middlewareAdapter_def Let_def split: outcome.splits option.splits)

theorem middlewareAdapter_converts_keys_witness:
  "body (fst (middlewareAdapter convertSnakeCaseKeysToCamelCase convertCamelCaseKeysToSnakeCase
       (\<lambda>r st. Returned (Some \<lparr>statusCode = 200, responseBody = body r, headers = None\<rparr>))
       \<lparr>body = JObject [(''user_name'', JString ''a'')], params = JObject [],
        query = JObject [], sharedState = JObject []\<rparr>)) =
     JObject [(''userName'', JString ''a'')] \<and>
   (\<exists>pre. snd (middlewareAdapter convertSnakeCaseKeysToCamelCase convertCamelCaseKeysToSnakeCase
       (\<lambda>r st. Returned (Some \<lparr>statusCode = 200, responseBody = body r, headers = None\<rparr>))
       \<lparr>body = JObject [(''user_name'', JString ''a'')], params = JObject [],
        query = JObject [], sharedState = JObject []\<rparr>) =
     Returned (pre @ [ResStatus 200, ResJson (JObject [(''user_name'', JString ''a'')])]))"
proof -
  let ?req = "\<lparr>body = JObject [(''user_name'', JString ''a'')], params = JObject [],
                query = JObject [], sharedState = JObject []\<rparr>"
  let ?h = "\<lambda>r st. Returned (Some \<lparr>statusCode = 200, responseBody = body r, headers = None\<rparr>)"
  have camel: "convertSnakeCaseKeysToCamelCase (JObject [(''user_name'', JString ''a'')]) =
      JObject [(''userName'', JString ''a'')]"
    by code_simp
  have snake: "convertCamelCaseKeysToSnakeCase (JObject [(''userName'', JString ''a'')]) =
      JObject [(''user_name'', JString ''a'')]"
    by code_simp
  show ?thesis
    using middlewareAdapter_converts_keys
      [of convertSnakeCaseKeysToCamelCase convertCamelCaseKeysToSnakeCase ?h ?req]
      camel snake
    by auto
qed

section \<open>Properties kept by every operation\<close>

lemma stableD:
  assumes "stable P"
  shows "\<And>s e. P s \<Longrightarrow> mounted e = None \<Longrightarrow> P (emit e s)"
    and "\<And>s. P s \<Longrightarrow> P (loadRoutes s)"
    and "\<And>s pth burl hid. P s \<Longrightarrow> P (snd (createRoute pth burl hid s))"
    and "\<And>s v. P s \<Longrightarrow> P (s\<lparr>server := v\<rparr>)"
    and "\<And>s v. P s \<Longrightarrow> P (s\<lparr>websocketServerOptions := v\<rparr>)"
    and "\<And>s v. P s \<Longrightarrow> P (s\<lparr>listenerOptions := v\<rparr>)"
    and "\<And>s v. P s \<Longrightarrow> P (s\<lparr>baseUrl := v\<rparr>)"
    and "\<And>s v. P s \<Longrightarrow> P (s\<lparr>addressInfo := v\<rparr>)"
    and "\<And>s v. P s \<Longrightarrow> P (s\<lparr>startupCallbacks := v\<rparr>)"
    and "\<And>s v. P s \<Longrightarrow> P (s\<lparr>isStarted := v\<rparr>)"
    and "\<And>s v. P s \<Longrightarrow> P (s\<lparr>wsInstance := v\<rparr>)"
    and "\<And>s v. P s \<Longrightarrow> P (s\<lparr>nextServer := v\<rparr>)"
    and "\<And>s. P s \<Longrightarrow> P (s\<lparr>startWebSocketServer := True\<rparr>)"
    and "\<And>s. P s \<Longrightarrow> startWebSocketServer s \<Longrightarrow> P (s\<lparr>websocketServer := Some TheInstance\<rparr>)"
  using assms unfolding stable_def by simp_all

lemma stable_createServer:
  assumes "stable P" and "P s"
  shows "P (snd (createServer s))"
  using assms(2) by (simp add: createServer_def Let_def stableD [OF assms(1)])

lemma stable_getServer:
  assumes "stable P" and "P s"
  shows "P (snd (getServer s))"
  using assms by (simp add: getServer_def stable_createServer stableD(2))

lemma stable_routesLoop:
  assumes "stable P" and "P s"
  shows "P (snd (routesLoop en dir rt fs s))"
  using assms(2)
proof (induction fs arbitrary: s)
  case Nil
  then show ?case by simp
next
  case (Cons f fs)
  then show ?case
    by (auto simp: stableD(1) [OF assms(1)] split: option.splits jsval.splits)
qed

lemma stable_eventsLoop:
  assumes "stable P" and "P s"
  shows "P (snd (eventsLoop en dir fs s))"
  using assms(2)
proof (induction fs arbitrary: s)
  case Nil
  then show ?case by simp
next
  case (Cons f fs)
  then show ?case
    by (auto simp: stableD(1) [OF assms(1)] split: option.splits jsval.splits)
qed

lemma stable_eventsDirectory:
  assumes "stable P" and "P s"
  shows "P (snd (eventsDirectory en dir s))"
  using assms by (simp add: eventsDirectory_def stable_eventsLoop split: option.splits)

lemma stable_getInstance:
  assumes "stable P" and "P s"
  shows "P (snd (getInstance h opts s))"
  using assms
  by (simp add: getInstance_def newWebSocketServer_def Let_def split_def stable_getServer
      stableD(11) split: option.splits ws_host.splits)

lemma startWebSocketServer_getInstance:
  "startWebSocketServer (snd (getInstance h opts s)) = startWebSocketServer s"
  by (simp add: getInstance_def newWebSocketServer_def Let_def split_def getServer_def
      createServer_def loadRoutes_def emit_def split: option.splits ws_host.splits)

lemma stable_initializeWebSocketServer:
  assumes "stable P" and "P s"
  shows "P (snd (initializeWebSocketServer en s))"
proof (cases "startWebSocketServer s")
  case False
  then show ?thesis using assms(2) by (simp add: initializeWebSocketServer_def)
next
  case True
  let ?s1 = "snd (getInstance (serverHost s) (websocketServerOptions s) s)"
  have "P ?s1"
    by (rule stable_getInstance [OF assms])
  moreover have "startWebSocketServer ?s1"
    using True by (simp add: startWebSocketServer_getInstance)
  ultimately have "P (?s1\<lparr>websocketServer := Some TheInstance\<rparr>)"
    by (rule stableD(14) [OF assms(1)])
  then have "P (snd (eventsDirectory en ''src/main/events''
      (?s1\<lparr>websocketServer := Some TheInstance\<rparr>)))"
    by (rule stable_eventsDirectory [OF assms(1)])
  then show ?thesis
    using True \<open>P ?s1\<close>
    by (simp add: initializeWebSocketServer_def split_def split: outcome.splits)
qed

lemma stable_invokeAll:
  assumes "stable P" and "P s"
  shows "P (snd (invokeAll en cbs s))"
  using assms(2) by (induction cbs arbitrary: s) (simp_all add: stableD(1) [OF assms(1)])

lemma stable_listen:
  assumes "stable P" and "P s"
  shows "P (snd (listen en p cb s))"
  using assms(2)
  by (simp add: listen_def Let_def split_def stable_getServer [OF assms(1)]
      stableD [OF assms(1)])

lemma stable_onInstance:
  assumes "stable P" and "P s"
  shows "P (onInstance f s)"
  using assms(2) by (simp add: onInstance_def stableD [OF assms(1)])

lemma stable_listenAsync:
  assumes "stable P" and "P s"
  shows "P (snd (listenAsync en p cb s))"
proof (cases "isStarted s")
  case True
  then show ?thesis using assms(2) by (simp add: listenAsync_def)
next
  case False
  let ?s2 = "snd (invokeAll en (startupCallbacks s) (s\<lparr>isStarted := True\<rparr>))"
  let ?s6 = "snd (createServer
      ((loadRoutes ?s2)\<lparr>listenerOptions := Some \<lparr>port = unaryPlus en p, callback = cb\<rparr>\<rparr>))
      \<lparr>server := Some (fst (createServer
      ((loadRoutes ?s2)\<lparr>listenerOptions := Some \<lparr>port = unaryPlus en p, callback = cb\<rparr>\<rparr>)))\<rparr>"
  have s2: "P ?s2"
    by (intro stable_invokeAll [OF assms(1)] stableD [OF assms(1)] assms(2))
  have s6: "P ?s6"
    by (intro stable_createServer [OF assms(1)] stableD [OF assms(1)] s2)
  have s7: "P (snd (initializeWebSocketServer en ?s6))"
    by (rule stable_initializeWebSocketServer [OF assms(1) s6])
  have s10: "P ((emit (ServerListen n p cb)
      (onInstance (connect DefaultCallback) (snd (initializeWebSocketServer en ?s6))))
      \<lparr>addressInfo := a\<rparr>)" for n a
    by (intro stable_onInstance [OF assms(1)] stableD [OF assms(1)] s7) simp
  show ?thesis
    using False s2 s7 s10
    by (simp add: listenAsync_def Let_def split_def split: outcome.splits option.splits)
qed

lemma stable_refresh:
  assumes "stable P" and "P s"
  shows "P (snd (refresh en s))"
  using assms(2)
  by (simp add: refresh_def Let_def split_def stable_listen [OF assms(1)]
      stableD [OF assms(1)] split: option.splits outcome.splits)

lemma stable_close:
  assumes "stable P" and "P s"
  shows "P (snd (close s))"
  using assms(2)
  by (simp add: close_def Let_def stableD [OF assms(1)] split: option.splits)

lemma stable_setBaseUrl:
  assumes "stable P" and "P s"
  shows "P (setBaseUrl url s)"
  using assms(2) by (simp add: setBaseUrl_def stableD [OF assms(1)])

lemma stable_route:
  assumes "stable P" and "P s"
  shows "P (snd (route pth burl s))"
  using assms(2) by (simp add: route_def stableD [OF assms(1)] split: option.splits)

lemma stable_routesDirectory:
  assumes "stable P" and "P s"
  shows "P (snd (routesDirectory en dir arg1 args s))"
proof (cases "readdirSync en dir")
  case None
  then show ?thesis using assms(2) by (simp add: routesDirectory_def Let_def)
next
  case (Some files)
  note loopD = stable_routesLoop [OF assms(1)]
  note emitD = stableD(1) [OF assms(1)]
  note loadD = stableD(2) [OF assms(1)]
  note createD = stableD(3) [OF assms(1)]
  show ?thesis
  proof (cases arg1)
    case ArgUndefined
    then show ?thesis
      using Some by (auto simp: routesDirectory_def Let_def split_def assms(2)
          split: outcome.splits intro!: loopD loadD emitD createD)
  next
    case (ArgBaseUrl b)
    then show ?thesis
      using Some by (auto simp: routesDirectory_def Let_def split_def assms(2)
          split: outcome.splits intro!: loopD loadD emitD createD)
  next
    case (ArgRoute r)
    then show ?thesis
      using Some by (auto simp: routesDirectory_def Let_def split_def assms(2)
          split: outcome.splits intro!: loopD loadD emitD createD)
  next
    case (ArgMiddleware m)
    then show ?thesis
      using Some by (auto simp: routesDirectory_def Let_def split_def assms(2)
          split: outcome.splits intro!: loopD loadD emitD createD)
  qed
qed

lemma stable_exec:
  assumes "stable P" and "P s"
  shows "P (exec en opn s)"
proof (cases opn)
  case (OpSetWebSocketServerOptions opts)
  then show ?thesis
    using assms(2) by (simp add: setWebSocketServerOptions_def stableD [OF assms(1)])
next
  case (OpUse v ms)
  then show ?thesis
    using assms(2) by (simp add: use_def stableD [OF assms(1)] split: use_arg.splits)
next
  case (OpWsEventsDirectory dir)
  then show ?thesis
    using assms by (simp add: stable_eventsDirectory split: option.splits)
qed (use assms in \<open>simp_all add: stable_listen stable_listenAsync stable_getServer
      stable_refresh stable_close stable_setBaseUrl stable_routesDirectory stable_route
      stable_getInstance stable_onInstance onStart_def set_of_def stableD(1) stableD(9)\<close>)

lemma stable_run:
  assumes "stable P" and "P s"
  shows "P (run en ops s)"
  using assms(2) by (induction ops arbitrary: s) (simp_all add: stable_exec [OF assms(1)])

section \<open>The invariants are stable\<close>


lemma grows_refl: "grows xs xs"
  by (induction xs) simp_all

lemma grows_trans: "grows xs ys \<Longrightarrow> grows ys zs \<Longrightarrow> grows xs zs"
proof (induction xs ys arbitrary: zs rule: grows.induct)
  case (1 ys)
  then show ?case by simp
next
  case (2 x xs)
  then show ?case by simp
next
  case (3 x xs y ys)
  then show ?case by (cases zs) auto
qed

lemma grows_append: "grows xs (xs @ zs)"
  by (induction xs) simp_all

lemma grows_load: "grows xs (map (\<lambda>r. if loaded r then r else r\<lparr>loaded := True\<rparr>) xs)"
  by (induction xs) (simp_all add: identityOf_def)

lemma stable_grows: "stable (\<lambda>s. grows xs (routers s))"
  unfolding stable_def
proof (intro conjI allI impI)
  fix s :: http_server
  assume "grows xs (routers s)"
  then show "grows xs (routers (loadRoutes s))"
    using grows_trans [OF _ grows_load] by (simp add: loadRoutes_def)
next
  fix s :: http_server and pth burl hid
  assume "grows xs (routers s)"
  then show "grows xs (routers (snd (createRoute pth burl hid s)))"
    using grows_trans [OF _ grows_append] by (simp add: createRoute_def Let_def)
qed (simp_all add: emit_def)

lemma filter_router_distinct:
  "distinct (map router xs) \<Longrightarrow> e \<in> set xs \<Longrightarrow> filter (\<lambda>r. router r = router e) xs = [e]"
proof (induction xs)
  case Nil
  then show ?case by simp
next
  case (Cons x xs)
  show ?case
  proof (cases "x = e")
    case True
    have "filter (\<lambda>r. router r = router e) xs = []"
      using Cons.prems(1) True by (fastforce simp: filter_empty_conv image_iff)
    then show ?thesis using True by simp
  next
    case False
    then have "e \<in> set xs" using Cons.prems(2) by simp
    moreover have "router x \<noteq> router e"
      using Cons.prems(1) \<open>e \<in> set xs\<close> by auto
    ultimately show ?thesis using Cons by simp
  qed
qed

lemma mounts_emit: "mounted e = None \<Longrightarrow> mounts k (emit e s) = mounts k s"
  by (simp add: mounts_def emit_def)

lemma allocated_mono: "allocated n e \<Longrightarrow> n \<le> m \<Longrightarrow> allocated m e"
  by (cases e) simp_all

lemma allocated_no_mount: "mounted e = None \<Longrightarrow> allocated n e"
  by (cases e) simp_all

lemma allocated_mounted: "allocated n e \<Longrightarrow> mounted e = Some k \<Longrightarrow> k < n"
  by (cases e) simp_all

lemma wellFormed_emit:
  assumes "wellFormed s" and "mounted e = None"
  shows "wellFormed (emit e s)"
proof -
  have "routers (emit e s) = routers s" and "nextRouter (emit e s) = nextRouter s"
    and "trace (emit e s) = trace s @ [e]"
    by (simp_all add: emit_def)
  then show ?thesis
    using assms by (simp add: wellFormed_def mounts_emit allocated_no_mount)
qed

lemma mounts_loadRoutes:
  "mounts k (loadRoutes s) =
     mounts k s + length (filter (\<lambda>r. \<not> loaded r) (filter (\<lambda>r. router r = k) (routers s)))"
proof -
  have "filter (\<lambda>e. mounted e = Some k)
          (map (\<lambda>r. ExpressMount (mountUrl s r) (router r)) ys) =
        map (\<lambda>r. ExpressMount (mountUrl s r) (router r)) (filter (\<lambda>r. router r = k) ys)" for ys
    by (induction ys) simp_all
  then show ?thesis
    by (simp add: mounts_def loadRoutes_def conj_commute)
qed

lemma wellFormed_loadRoutes:
  assumes "wellFormed s"
  shows "wellFormed (loadRoutes s)"
proof -
  let ?setL = "\<lambda>r. if loaded r then r else r\<lparr>loaded := True\<rparr>"
  have dist: "distinct (map router (routers s))"
    and alloc: "\<forall>e \<in> set (routers s). router e < nextRouter s"
    and once: "\<forall>e \<in> set (routers s). mounts (router e) s = (if loaded e then 1 else 0)"
    and known: "\<forall>e \<in> set (trace s). allocated (nextRouter s) e"
    using assms by (simp_all add: wellFormed_def list_all_iff)
  have routers: "routers (loadRoutes s) = map ?setL (routers s)"
    and nxt: "nextRouter (loadRoutes s) = nextRouter s"
    and tr: "trace (loadRoutes s) = trace s @
        map (\<lambda>r. ExpressMount (mountUrl s r) (router r)) (filter (\<lambda>r. \<not> loaded r) (routers s))"
    by (simp_all add: loadRoutes_def)
  have same: "map router (map ?setL (routers s)) = map router (routers s)"
    by (induction "routers s") auto
  have d: "distinct (map router (routers (loadRoutes s)))"
    using dist by (simp only: routers same)
  have a: "\<forall>e \<in> set (routers (loadRoutes s)). router e < nextRouter (loadRoutes s)"
    using alloc by (auto simp: routers nxt)
  have o: "\<forall>e \<in> set (routers (loadRoutes s)).
      mounts (router e) (loadRoutes s) = (if loaded e then 1 else 0)"
  proof
    fix e'
    assume "e' \<in> set (routers (loadRoutes s))"
    then obtain e where e: "e \<in> set (routers s)" and e': "e' = ?setL e"
      by (auto simp: routers)
    have r: "router e' = router e" and l: "loaded e'"
      by (simp_all add: e')
    have "mounts (router e) (loadRoutes s) = 1"
      using once e by (simp add: mounts_loadRoutes filter_router_distinct [OF dist e])
    then show "mounts (router e') (loadRoutes s) = (if loaded e' then 1 else 0)"
      by (simp add: r l)
  qed
  have k: "\<forall>e \<in> set (trace (loadRoutes s)). allocated (nextRouter (loadRoutes s)) e"
    using known alloc by (auto simp: tr nxt)
  show ?thesis
    using d a o k by (simp add: wellFormed_def list_all_iff)
qed

lemma wellFormed_createRoute:
  assumes "wellFormed s"
  shows "wellFormed (snd (createRoute pth burl hid s))"
proof -
  let ?s' = "snd (createRoute pth burl hid s)"
  let ?new = "\<lparr>path = pth, entryBaseUrl = burl, router = nextRouter s, loaded = False,
                hidden = hid\<rparr>"
  have dist: "distinct (map router (routers s))"
    and alloc: "\<forall>e \<in> set (routers s). router e < nextRouter s"
    and once: "\<forall>e \<in> set (routers s). mounts (router e) s = (if loaded e then 1 else 0)"
    and known: "\<forall>e \<in> set (trace s). allocated (nextRouter s) e"
    using assms by (simp_all add: wellFormed_def list_all_iff)
  have routers: "routers ?s' = routers s @ [?new]"
    and nxt: "nextRouter ?s' = Suc (nextRouter s)"
    and tr: "trace ?s' = trace s"
    by (simp_all add: createRoute_def Let_def)
  have m: "mounts k ?s' = mounts k s" for k
    by (simp add: mounts_def tr)
  have fresh: "mounts (nextRouter s) s = 0"
    using known by (auto simp: mounts_def filter_empty_conv dest: allocated_mounted)
  have d: "distinct (map router (routers ?s'))"
    using dist alloc by (auto simp: routers)
  have a: "\<forall>e \<in> set (routers ?s'). router e < nextRouter ?s'"
    using alloc by (auto simp: routers nxt less_Suc_eq)
  have o: "\<forall>e \<in> set (routers ?s'). mounts (router e) ?s' = (if loaded e then 1 else 0)"
    using once fresh by (auto simp: routers m)
  have k: "\<forall>e \<in> set (trace ?s'). allocated (nextRouter ?s') e"
    using known by (auto simp: tr nxt intro: allocated_mono)
  show ?thesis
    using d a o k by (simp add: wellFormed_def list_all_iff)
qed

lemma stable_wellFormed: "stable wellFormed"
  unfolding stable_def
proof (intro conjI allI impI)
  fix s e
  assume "wellFormed s \<and> mounted e = None"
  then show "wellFormed (emit e s)" by (simp add: wellFormed_emit)
next
  fix s
  assume "wellFormed s"
  then show "wellFormed (loadRoutes s)" by (rule wellFormed_loadRoutes)
next
  fix s pth burl hid
  assume "wellFormed s"
  then show "wellFormed (snd (createRoute pth burl hid s))" by (rule wellFormed_createRoute)
qed (simp_all add: wellFormed_def mounts_def)

lemma wellFormed_initial: "wellFormed initial"
  by (simp add: wellFormed_def initial_def)

lemma wellFormed_reachable: "wellFormed (run en ops initial)"
  by (rule stable_run [OF stable_wellFormed wellFormed_initial])


lemma grows_run: "grows (routers s) (routers (run en ops s))"
  by (rule stable_run [OF stable_grows grows_refl])

lemma grows_exec: "grows (routers s) (routers (exec en opn s))"
  by (rule stable_exec [OF stable_grows grows_refl])

section \<open>Starting the server\<close>


lemma invokeAll_state:
  "\<exists>es. snd (invokeAll en cbs s) = s\<lparr>trace := trace s @ map Invoke es\<rparr>"
proof (induction cbs arbitrary: s)
  case Nil
  show ?case by (rule exI [of _ "[]"]) simp
next
  case (Cons c cs)
  show ?case
  proof (cases "startup en c = NeverReturns")
    case True
    then show ?thesis by (intro exI [of _ "[c]"]) (simp add: emit_def)
  next
    case False
    obtain es where "snd (invokeAll en cs (emit (Invoke c) s)) =
        (emit (Invoke c) s)\<lparr>trace := trace (emit (Invoke c) s) @ map Invoke es\<rparr>"
      using Cons.IH by blast
    then show ?thesis
      using False by (intro exI [of _ "c # es"]) (simp add: emit_def)
  qed
qed

lemma invokeAll_isStarted: "isStarted (snd (invokeAll en cbs s)) = isStarted s"
  using invokeAll_state [of en cbs s] by (elim exE) simp

lemma eventsLoop_isStarted: "isStarted (snd (eventsLoop en dir fs s)) = isStarted s"
proof (induction fs arbitrary: s)
  case Nil
  show ?case by simp
next
  case (Cons f fs)
  show ?case
    by (simp add: Cons.IH split: option.splits jsval.splits) (simp add: emit_def)
qed

lemma getInstance_isStarted: "isStarted (snd (getInstance h opts s)) = isStarted s"
  by (simp add: getInstance_def newWebSocketServer_def getServer_def createServer_def
      loadRoutes_def emit_def Let_def split_def split: option.splits ws_host.splits)

lemma initializeWebSocketServer_isStarted:
  "isStarted (snd (initializeWebSocketServer en s)) = isStarted s"
  by (simp add: initializeWebSocketServer_def eventsDirectory_def eventsLoop_isStarted
      getInstance_isStarted split_def split: outcome.splits option.splits)

lemma listen_isStarted: "isStarted (snd (listen en p cb s))"
  by (simp add: listen_def getServer_def createServer_def loadRoutes_def emit_def Let_def
      split_def)

lemma listenAsync_isStarted: "isStarted (snd (listenAsync en p cb s))"
  by (simp add: listenAsync_def invokeAll_isStarted initializeWebSocketServer_isStarted
      createServer_def loadRoutes_def emit_def onInstance_def Let_def split_def
      split: outcome.splits option.splits)

text \<open>
  C5. After a call of \<open>listen\<close> or \<open>listenAsync\<close> that returned, a further call of either,
  with any port and callback, returns \<open>undefined\<close> and leaves the whole state as it was:
  the routers, the listener options and the address are the same, and nothing is added
  to the effects, so no server is created or bound and no callback is called.
\<close>

theorem listen_twice_is_noop:
  assumes "listen en p cb s = (Returned r, s1) \<or> listenAsync en p cb s = (Returned r, s1)"
  shows "listen en p' cb' s1 = (Returned None, s1) \<and>
         listenAsync en p' cb' s1 = (Returned None, s1)"
proof -
  have "s1 = snd (listen en p cb s) \<or> s1 = snd (listenAsync en p cb s)"
    using assms by auto
  then have "isStarted s1"
    using listen_isStarted [of en p cb s] listenAsync_isStarted [of en p cb s] by auto
  then show ?thesis
    by (simp add: listen_def listenAsync_def)
qed

theorem listen_twice_is_noop_witness:
  "fst (listen demoEnv (PortNumber (Num 3000)) DefaultCallback initial) = Returned (Some 0) \<and>
   listen demoEnv (PortString ''8080'') (Callback 1)
       (snd (listen demoEnv (PortNumber (Num 3000)) DefaultCallback initial)) =
     (Returned None, snd (listen demoEnv (PortNumber (Num 3000)) DefaultCallback initial)) \<and>
   listenAsync demoEnv (PortString ''8080'') (Callback 1)
       (snd (listen demoEnv (PortNumber (Num 3000)) DefaultCallback initial)) =
     (Returned None, snd (listen demoEnv (PortNumber (Num 3000)) DefaultCallback initial))"
proof -
  let ?first = "listen demoEnv (PortNumber (Num 3000)) DefaultCallback initial"
  have r: "fst ?first = Returned (Some 0)"
    by code_simp
  then have "?first = (Returned (Some 0), snd ?first)"
    by (metis prod.collapse)
  then have "listen demoEnv (PortNumber (Num 3000)) DefaultCallback initial =
      (Returned (Some 0), snd ?first) \<or>
    listenAsync demoEnv (PortNumber (Num 3000)) DefaultCallback initial =
      (Returned (Some 0), snd ?first)"
    by (rule disjI1)
  from listen_twice_is_noop [OF this, of "PortString ''8080''" "Callback 1"] r
  show ?thesis by simp
qed






section \<open>Where the code departs from what it sets out to do\<close>

lemma fileIsImported_always: "fileIsImported fileName"
  by (simp add: fileIsImported_def js_and_def haveAValidName_def hasAValidExtension_def)

text \<open>
  C1. The directory \<open>src/main/routes\<close> of the concrete environment holds the handler
  \<open>health.ts\<close> and the file \<open>foo.spec.ts\<close>, whose upper-cased name contains the excluded
  marker \<open>.SPEC.\<close>; \<open>routesDirectory\<close> calls the default export of both modules, two
  registrations where one is expected. \<open>eventsDirectory\<close> does the same with \<open>chat.ts\<close> and
  \<open>chat.test.ts\<close>.
\<close>

theorem routesDirectory_imports_excluded_file:
  "includesText (toLocaleUpperCase ''foo.spec.ts'') ''.SPEC.'' \<and>
   filter isSetup
     (trace (snd (routesDirectory demoEnv ''src/main/routes'' ArgUndefined [] initial))) =
     [SetupRoute 0 (Route 0), SetupRoute 1 (Route 0)] \<and>
   includesText (toLocaleUpperCase ''chat.test.ts'') ''.TEST.'' \<and>
   filter isSetup
     (trace (snd (eventsDirectory demoEnv ''src/main/events''
        (run demoEnv [OpWsGetInstance None] initial)))) =
     [SetupEvents 2, SetupEvents 3]"
  by code_simp

lemma refresh_adds_no_listen:
  "filter isListen (trace (snd (refresh en s))) = filter isListen (trace s)"
  by (simp add: refresh_def listen_def emit_def Let_def split: option.splits)

text \<open>
  C2. \<open>refresh\<close> on the server started by \<open>listen(3000, callback)\<close> returns after closing
  the node server: the call of \<open>listen\<close> it makes finds the server started and does
  nothing, so the only \<open>listen\<close> among the effects is the first one and the last effect
  is the close.
\<close>

theorem refresh_closes_without_listening:
  "fst (refresh demoEnv
      (run demoEnv [OpListen (PortNumber (Num 3000)) (Callback 7)] initial)) = Returned () \<and>
   trace (snd (refresh demoEnv
      (run demoEnv [OpListen (PortNumber (Num 3000)) (Callback 7)] initial))) =
     [UseSharedStateInitializer, CreateServer 0,
      ServerListen 0 (PortNumber (Num 3000)) (Callback 7),
      ServerClose 0 Info ''Refreshing server'']"
  by code_simp

text \<open>
  C3. \<open>close\<close> on a server for which a WebSocket server was configured throws after
  closing the node server. Started by \<open>listen\<close>, the field \<open>websocketServer\<close> is unset;
  started by \<open>listenAsync\<close>, the field holds the WebSocketServer instance, which has no
  method \<open>close\<close>. No effect closes the WebSocket server in either case.
\<close>

theorem close_throws_with_websocket:
  "close (run demoEnv
      [OpSetWebSocketServerOptions None, OpListen (PortNumber (Num 3000)) DefaultCallback]
      initial) =
     (Threw (TypeError ''Cannot read properties of undefined (reading close)''),
      emit (ServerClose 0 Info ''Shutting down server'')
        (run demoEnv
           [OpSetWebSocketServerOptions None, OpListen (PortNumber (Num 3000)) DefaultCallback]
           initial)) \<and>
   close (run demoEnv
      [OpWsGetInstance None, OpSetWebSocketServerOptions None,
       OpListenAsync (PortNumber (Num 3000)) DefaultCallback]
      initial) =
     (Threw (TypeError ''this.websocketServer.close is not a function''),
      emit (ServerClose 1 Info ''Shutting down server'')
        (run demoEnv
           [OpWsGetInstance None, OpSetWebSocketServerOptions None,
            OpListenAsync (PortNumber (Num 3000)) DefaultCallback]
           initial))"
  by code_simp

section \<open>The router list\<close>






section \<open>Looking routes up\<close>

lemma find_append_eq:
  "find P (xs @ ys) = (case find P xs of None \<Rightarrow> find P ys | Some x \<Rightarrow> Some x)"
  by (induction xs) simp_all

lemma getRoute_Some:
  assumes "getRoute pth burl s = Some r"
  shows "\<exists>x \<in> set (routers s).
           r = Route (router x) \<and> path x = pth \<and> entryBaseUrl x = burl \<and> \<not> hidden x"
proof -
  obtain x where x: "find (\<lambda>r. path r = pth \<and> entryBaseUrl r = burl \<and> \<not> hidden r) (routers s)
      = Some x" and r: "r = Route (router x)"
    using assms by (auto simp: getRoute_def split: option.splits)
  from x have "x \<in> set (routers s)" and "path x = pth \<and> entryBaseUrl x = burl \<and> \<not> hidden x"
    by (auto simp: find_Some_iff)
  then show ?thesis using r by blast
qed

lemma getRoute_after_route:
  "getRoute pth burl (snd (route pth burl s)) = Some (fst (route pth burl s))"
proof (cases "getRoute pth burl s")
  case (Some r)
  then show ?thesis by (simp add: route_def)
next
  case None
  then have "find (\<lambda>r. path r = pth \<and> entryBaseUrl r = burl \<and> \<not> hidden r) (routers s) = None"
    by (simp add: getRoute_def split: option.splits)
  then show ?thesis
    using None by (simp add: route_def createRoute_def Let_def getRoute_def find_append_eq)
qed

lemma find_grows:
  assumes "grows xs ys"
    and "find (\<lambda>r. Q (identityOf r)) xs = Some x"
  shows "\<exists>y. find (\<lambda>r. Q (identityOf r)) ys = Some y \<and> identityOf y = identityOf x"
  using assms
proof (induction xs ys rule: grows.induct)
  case (1 ys)
  then show ?case by simp
next
  case (2 x xs)
  then show ?case by simp
next
  case (3 a xs b ys)
  then show ?case by (cases "Q (identityOf a)") auto
qed

lemma getRoute_grows:
  assumes "grows (routers s) (routers s')"
    and "getRoute pth burl s = Some r"
  shows "getRoute pth burl s' = Some r"
proof -
  let ?Q = "\<lambda>i. fst i = pth \<and> fst (snd i) = burl \<and> \<not> snd (snd (snd i))"
  have eq: "(\<lambda>r. path r = pth \<and> entryBaseUrl r = burl \<and> \<not> hidden r) =
      (\<lambda>r. ?Q (identityOf r))"
    by (simp add: identityOf_def)
  obtain x where x: "find (\<lambda>r. ?Q (identityOf r)) (routers s) = Some x"
    and r: "r = Route (router x)"
    using assms(2) by (auto simp: getRoute_def eq split: option.splits)
  obtain y where y: "find (\<lambda>r. ?Q (identityOf r)) (routers s') = Some y"
    and i: "identityOf y = identityOf x"
    using find_grows [OF assms(1) x] by blast
  have "router y = router x"
    using i by (simp add: identityOf_def)
  then show ?thesis
    using y r by (simp add: getRoute_def eq)
qed

lemma same_router_same_entry:
  assumes "wellFormed s" and "x \<in> set (routers s)" and "y \<in> set (routers s)"
    and "router x = router y"
  shows "x = y"
proof -
  have "distinct (map router (routers s))"
    using assms(1) by (simp add: wellFormed_def)
  then have "inj_on router (set (routers s))"
    by (simp add: distinct_map)
  then show ?thesis
    using assms(2-4) by (auto dest: inj_onD)
qed

lemma getRoute_not_hidden:
  assumes "wellFormed s" and "e \<in> set (routers s)" and "hidden e"
  shows "getRoute pth burl s \<noteq> Some (Route (router e))"
proof
  assume "getRoute pth burl s = Some (Route (router e))"
  then obtain x where x: "x \<in> set (routers s)" "router x = router e" "\<not> hidden x"
    using getRoute_Some by fastforce
  then have "x = e"
    using same_router_same_entry [OF assms(1) x(1) assms(2)] by simp
  then show False
    using x(3) assms(3) by simp
qed

text \<open>
  C6. Let \<open>s\<close> be a state reached by calls on a new HttpServer. \<open>route\<close> with a pair of
  path and base URL, then any further calls, then \<open>route\<close> with the same pair: the
  second call returns a Route on the same router as the first and creates nothing.
  With a different pair it returns a Route on a different router. And no lookup,
  \<open>getRoute\<close> or \<open>route\<close>, ever answers with the router of a hidden entry.
\<close>

theorem route_same_pair_same_router:
  assumes "s = run en ops initial"
    and "s2 = run en ops' (snd (route pth burl s))"
  shows "route pth burl s2 = (fst (route pth burl s), s2) \<and>
         ((pth', burl') \<noteq> (pth, burl) \<longrightarrow>
            fst (route pth' burl' s2) \<noteq> fst (route pth burl s)) \<and>
         list_all (\<lambda>e. hidden e \<longrightarrow> getRoute pth' burl' s \<noteq> Some (Route (router e)))
           (routers s) \<and>
         list_all (\<lambda>e. hidden e \<longrightarrow> fst (route pth' burl' s) \<noteq> Route (router e))
           (routers (snd (route pth' burl' s)))"
proof -
  let ?r1 = "fst (route pth burl s)"
  let ?s1 = "snd (route pth burl s)"
  let ?r2 = "fst (route pth' burl' s2)"
  let ?s3 = "snd (route pth' burl' s2)"
  have wf: "wellFormed s"
    using assms(1) wellFormed_reachable by simp
  have wf1: "wellFormed ?s1"
    by (rule stable_route [OF stable_wellFormed wf])
  have wf2: "wellFormed s2"
    unfolding assms(2) by (rule stable_run [OF stable_wellFormed wf1])
  have wf3: "wellFormed ?s3"
    by (rule stable_route [OF stable_wellFormed wf2])
  have g12: "grows (routers ?s1) (routers s2)"
    unfolding assms(2) by (rule grows_run)
  have g23: "grows (routers s2) (routers ?s3)"
    by (rule stable_route [OF stable_grows grows_refl])
  have found2: "getRoute pth burl s2 = Some ?r1"
    by (rule getRoute_grows [OF g12 getRoute_after_route])
  then have same: "route pth burl s2 = (?r1, s2)"
    by (simp add: route_def)
  have other: "?r2 \<noteq> ?r1" if ne: "(pth', burl') \<noteq> (pth, burl)"
  proof
    assume eq: "?r2 = ?r1"
    have "getRoute pth burl ?s3 = Some ?r1"
      by (rule getRoute_grows [OF g23 found2])
    then obtain x where x: "x \<in> set (routers ?s3)" "?r1 = Route (router x)"
        "path x = pth" "entryBaseUrl x = burl"
      using getRoute_Some by blast
    have "getRoute pth' burl' ?s3 = Some ?r2"
      by (rule getRoute_after_route)
    then obtain y where y: "y \<in> set (routers ?s3)" "?r2 = Route (router y)"
        "path y = pth'" "entryBaseUrl y = burl'"
      using getRoute_Some by blast
    have "router x = router y"
      using eq x(2) y(2) by simp
    then have "x = y"
      by (rule same_router_same_entry [OF wf3 x(1) y(1)])
    then show False
      using ne x(3,4) y(3,4) by simp
  qed
  have hid: "list_all (\<lambda>e. hidden e \<longrightarrow> getRoute pth' burl' s \<noteq> Some (Route (router e)))
      (routers s)"
    using getRoute_not_hidden [OF wf] by (simp add: list_all_iff)
  have wf': "wellFormed (snd (route pth' burl' s))"
    by (rule stable_route [OF stable_wellFormed wf])
  have hid': "list_all (\<lambda>e. hidden e \<longrightarrow> fst (route pth' burl' s) \<noteq> Route (router e))
      (routers (snd (route pth' burl' s)))"
    using getRoute_not_hidden [OF wf', of _ pth' burl'] getRoute_after_route [of pth' burl' s]
    by (auto simp: list_all_iff)
  show ?thesis
    using same other hid hid' by blast
qed

theorem route_same_pair_same_router_witness:
  "fst (route (Some []) (Some [])
      (run demoEnv [OpRoutesDirectory ''src/main/routes'' ArgUndefined []] initial)) = Route 1 \<and>
   route (Some []) (Some [])
      (run demoEnv
         [OpListen (PortNumber (Num 3000)) DefaultCallback,
          OpRoutesDirectory ''src/main/routes'' ArgUndefined []]
         (snd (route (Some []) (Some [])
            (run demoEnv [OpRoutesDirectory ''src/main/routes'' ArgUndefined []] initial)))) =
     (Route 1,
      run demoEnv
         [OpListen (PortNumber (Num 3000)) DefaultCallback,
          OpRoutesDirectory ''src/main/routes'' ArgUndefined []]
         (snd (route (Some []) (Some [])
            (run demoEnv [OpRoutesDirectory ''src/main/routes'' ArgUndefined []] initial)))) \<and>
   fst (route (Some ''health'') None
      (run demoEnv
         [OpListen (PortNumber (Num 3000)) DefaultCallback,
          OpRoutesDirectory ''src/main/routes'' ArgUndefined []]
         (snd (route (Some []) (Some [])
            (run demoEnv [OpRoutesDirectory ''src/main/routes'' ArgUndefined []] initial)))))
     \<noteq> Route 1 \<and>
   map hidden
     (routers (run demoEnv [OpRoutesDirectory ''src/main/routes'' ArgUndefined []] initial)) =
     [True]"
proof -
  let ?ops = "[OpRoutesDirectory ''src/main/routes'' ArgUndefined []]"
  let ?ops' = "[OpListen (PortNumber (Num 3000)) DefaultCallback,
          OpRoutesDirectory ''src/main/routes'' ArgUndefined []]"
  let ?s = "run demoEnv ?ops initial"
  have first: "fst (route (Some []) (Some []) ?s) = Route 1"
    by code_simp
  have hiddenEntry: "map hidden (routers ?s) = [True]"
    by code_simp
  have ne: "(Some ''health'', None) \<noteq> (Some [], Some [])"
    by simp
  from route_same_pair_same_router
    [where en = demoEnv and ops = ?ops and pth = "Some []" and burl = "Some []"
       and ops' = ?ops' and pth' = "Some ''health''" and burl' = None, OF refl refl]
    first hiddenEntry ne
  show ?thesis by simp
qed

end
